theory Spec2Isabelle
  imports Main
begin

section \<open>Data model of the job store\<close>

text \<open>
  The enum \<open>JobRunning\<close> (coarse lifecycle phase) and the enum \<open>JobStatus\<close>
  (fine-grained phase). Both enums have a member called \<open>CREATING\<close>, so the members
  carry the prefix of their enum.
\<close>

datatype JobRunning = R_CREATING | R_RUNNING | R_DONE

datatype JobStatus = S_CREATING | S_IN_PROGRESS | S_SUCCESS | S_ERROR

text \<open>
  The entity \<open>JobState\<close>. Result artifacts are opaque, hence the type parameter.
  Ids and dataset references are strings; timestamps are numbers that the reducer only
  copies and never computes with. The field \<open>id\<close> is called \<open>job_id\<close> here.
  The field \<open>endTimestamp\<close> is optional: the object literal of the CREATE case does
  not have it.
\<close>

record 'r JobState =
  job_id :: string
  dataset :: string
  running :: JobRunning
  status :: JobStatus
  results :: "'r list"
  startTimestamp :: int
  endTimestamp :: "int option"

text \<open>
  \<open>Partial<JobState>\<close>: an object literal that lists some of the fields of a job.
  A field that the literal does not list is \<open>None\<close>.
\<close>

record 'r JobPartial =
  p_job_id :: "string option"
  p_dataset :: "string option"
  p_running :: "JobRunning option"
  p_status :: "JobStatus option"
  p_results :: "'r list option"
  p_startTimestamp :: "int option"
  p_endTimestamp :: "int option"

definition noFields :: "'r JobPartial" where
  "noFields = \<lparr> p_job_id = None, p_dataset = None, p_running = None, p_status = None,
      p_results = None, p_startTimestamp = None, p_endTimestamp = None \<rparr>"

text \<open>The normalized store \<open>ById<R>\<close>: a mapping from id to entity and the ordered ids.\<close>

record 'e ById =
  byId :: "string \<rightharpoonup> 'e"
  ids :: "string list"

type_synonym 'r JobReducerState = "'r JobState ById"

definition initialJobState :: "'r JobReducerState" where
  "initialJobState = \<lparr> byId = Map.empty, ids = [] \<rparr>"

section \<open>The store helpers\<close>

text \<open>
  Modelled from the spec: \<open>insertById\<close> of \<open>helpers/reducerHelpers\<close>, which the reducer
  imports and whose source file is not at hand. Section 4.1: if the id is
  already present the state is returned unchanged; otherwise the id is appended to
  \<open>ids\<close> and \<open>byId[id]\<close> is set to the entity.
\<close>

definition insertById :: "'e ById \<Rightarrow> string \<Rightarrow> 'e \<Rightarrow> 'e ById" where
  "insertById state i entity =
     (case byId state i of
        Some old \<Rightarrow> state
      | None \<Rightarrow> state \<lparr> byId := (byId state)(i \<mapsto> entity), ids := ids state @ [i] \<rparr>)"

text \<open>
  Modelled from the spec: the shallow merge of \<open>updateById\<close>, section 4.1 and section 9:
  the new entity is a copy of the old one with the listed fields overwritten.
\<close>

definition mergeFields :: "'r JobState \<Rightarrow> 'r JobPartial \<Rightarrow> 'r JobState" where
  "mergeFields old p =
     \<lparr> job_id = (case p_job_id p of Some v \<Rightarrow> v | None \<Rightarrow> job_id old),
       dataset = (case p_dataset p of Some v \<Rightarrow> v | None \<Rightarrow> dataset old),
       running = (case p_running p of Some v \<Rightarrow> v | None \<Rightarrow> running old),
       status = (case p_status p of Some v \<Rightarrow> v | None \<Rightarrow> status old),
       results = (case p_results p of Some v \<Rightarrow> v | None \<Rightarrow> results old),
       startTimestamp = (case p_startTimestamp p of Some v \<Rightarrow> v | None \<Rightarrow> startTimestamp old),
       endTimestamp = (case p_endTimestamp p of Some v \<Rightarrow> Some v | None \<Rightarrow> endTimestamp old) \<rparr>"

text \<open>
  Modelled from the spec: \<open>updateById\<close> of \<open>helpers/reducerHelpers\<close>, whose source file is
  not at hand. Section 4.1: if the id is absent the state is returned
  unchanged; otherwise the merged entity is substituted at the same id, and \<open>ids\<close>
  is left as it is.
\<close>

definition updateById :: "'r JobReducerState \<Rightarrow> string \<Rightarrow> 'r JobPartial \<Rightarrow> 'r JobReducerState" where
  "updateById state i partialFields =
     (case byId state i of
        None \<Rightarrow> state
      | Some old \<Rightarrow> state \<lparr> byId := (byId state)(i \<mapsto> mergeFields old partialFields) \<rparr>)"

section \<open>The reducer\<close>

text \<open>
  The actions of \<open>AllActions\<close> that the reducer has a case for, with their payloads in
  the order id/job, dataset, timestamp, results; \<open>OTHER_ACTION\<close> stands for every
  action type without a case in the switch.
\<close>

datatype 'r action =
    CREATE string string int
  | JOB_STARTED string int
  | TASK_RESULT string "'r list"
  | FINISH_JOB string int "'r list"
  | JOB_ERROR string int
  | OTHER_ACTION

text \<open>
  \<open>jobReducer(state = initialJobState, action)\<close>. The state argument may be undefined
  (\<open>None\<close>), in which case the default parameter value is taken.
\<close>

definition jobReducer :: "'r JobReducerState option \<Rightarrow> 'r action \<Rightarrow> 'r JobReducerState" where
  "jobReducer state_arg act =
     (let state = (case state_arg of None \<Rightarrow> initialJobState | Some s \<Rightarrow> s) in
      case act of
        CREATE i d timestamp \<Rightarrow>
          insertById state i
            \<lparr> job_id = i, dataset = d, running = R_CREATING, status = S_CREATING,
              results = [], startTimestamp = timestamp, endTimestamp = None \<rparr>
      | JOB_STARTED job timestamp \<Rightarrow>
          updateById state job
            (noFields \<lparr> p_running := Some R_RUNNING, p_status := Some S_IN_PROGRESS,
                       p_startTimestamp := Some timestamp \<rparr>)
      | TASK_RESULT job rs \<Rightarrow>
          updateById state job (noFields \<lparr> p_results := Some rs \<rparr>)
      | FINISH_JOB job timestamp rs \<Rightarrow>
          updateById state job
            (noFields \<lparr> p_running := Some R_DONE, p_status := Some S_SUCCESS,
                       p_results := Some rs, p_endTimestamp := Some timestamp \<rparr>)
      | JOB_ERROR job timestamp \<Rightarrow>
          updateById state job
            (noFields \<lparr> p_running := Some R_DONE, p_status := Some S_ERROR,
                       p_endTimestamp := Some timestamp \<rparr>)
      | OTHER_ACTION \<Rightarrow> state)"

text \<open>
  The dispatcher delivers the events one after the other, each reduction starting
  from the state the previous one returned.
\<close>

definition dispatchAll :: "'r JobReducerState \<Rightarrow> 'r action list \<Rightarrow> 'r JobReducerState" where
  "dispatchAll state evs = foldl (\<lambda>s a. jobReducer (Some s) a) state evs"

text \<open>The id an event names: the id of a CREATE, the job of a lifecycle event.\<close>

fun target :: "'r action \<Rightarrow> string option" where
  "target (CREATE i d t) = Some i"
| "target (JOB_STARTED j t) = Some j"
| "target (TASK_RESULT j rs) = Some j"
| "target (FINISH_JOB j t rs) = Some j"
| "target (JOB_ERROR j t) = Some j"
| "target OTHER_ACTION = None"

text \<open>The terminal events: those that move a job to \<open>DONE\<close>.\<close>

fun terminal :: "'r action \<Rightarrow> bool" where
  "terminal (FINISH_JOB j t rs) = True"
| "terminal (JOB_ERROR j t) = True"
| "terminal a = False"

text \<open>The four consistent combinations of \<open>running\<close> and \<open>status\<close>.\<close>

definition consistent :: "'r JobState \<Rightarrow> bool" where
  "consistent job =
     ((running job, status job) \<in>
        {(R_CREATING, S_CREATING), (R_RUNNING, S_IN_PROGRESS), (R_DONE, S_SUCCESS), (R_DONE, S_ERROR)})"

text \<open>A job in phase \<open>DONE\<close> carries an end timestamp.\<close>

definition done_has_end :: "'r JobState \<Rightarrow> bool" where
  "done_has_end job = (running job = R_DONE \<longrightarrow> endTimestamp job \<noteq> None)"

text \<open>The event confirms the start of job \<open>j\<close>.\<close>

fun startsJob :: "string \<Rightarrow> 'r action \<Rightarrow> bool" where
  "startsJob j (JOB_STARTED k t) = (k = j)"
| "startsJob j a = False"

text \<open>The event is a terminal event naming job \<open>j\<close>.\<close>

definition endsJob :: "string \<Rightarrow> 'r action \<Rightarrow> bool" where
  "endsJob j a = (terminal a \<and> target a = Some j)"

text \<open>
  The events are in lifecycle order for job \<open>j\<close>: no JOB_STARTED naming \<open>j\<close>
  comes after a FINISH_JOB or JOB_ERROR naming \<open>j\<close>.
\<close>

fun no_late_start :: "string \<Rightarrow> 'r action list \<Rightarrow> bool" where
  "no_late_start j [] = True"
| "no_late_start j (a # evs) =
     (if endsJob j a then list_all (\<lambda>b. \<not> startsJob j b) evs else no_late_start j evs)"

section \<open>Basic facts about single reductions\<close>

lemma dispatchAll_Nil: "dispatchAll s [] = s"
  by (simp add: dispatchAll_def)

lemma dispatchAll_Cons: "dispatchAll s (a # evs) = dispatchAll (jobReducer (Some s) a) evs"
  by (simp add: dispatchAll_def)

lemma dispatchAll_snoc: "dispatchAll s (evs @ [a]) = jobReducer (Some (dispatchAll s evs)) a"
  by (simp add: dispatchAll_def)

lemmas reducer_defs = jobReducer_def insertById_def updateById_def mergeFields_def noFields_def

text \<open>A reduction touches only the job its event names.\<close>

lemma jobReducer_frame:
  "target a \<noteq> Some x \<Longrightarrow> byId (jobReducer (Some s) a) x = byId s x"
  by (cases a) (auto simp: jobReducer_def insertById_def updateById_def split: option.splits)

lemma dispatchAll_frame:
  "\<forall>a\<in>set evs. target a \<noteq> Some x \<Longrightarrow> byId (dispatchAll s evs) x = byId s x"
proof (induction evs arbitrary: s)
  case Nil
  show ?case by (simp add: dispatchAll_Nil)
next
  case (Cons a evs)
  from Cons.prems have "target a \<noteq> Some x" and rest: "\<forall>b\<in>set evs. target b \<noteq> Some x"
    by simp_all
  then show ?case
    by (simp add: dispatchAll_Cons Cons.IH jobReducer_frame)
qed

text \<open>What a reduction does to the job stored at an id.\<close>

lemma jobReducer_job_cases:
  assumes "byId (jobReducer (Some s) a) j = Some job'"
  shows "(byId s j = None \<and> (\<exists>d t. a = CREATE j d t \<and> job' = \<lparr> job_id = j, dataset = d, running = R_CREATING, status = S_CREATING,
              results = [], startTimestamp = t, endTimestamp = None \<rparr>))
       \<or> (\<exists>job. byId s j = Some job \<and>
            (job' = job
             \<or> (\<exists>t. a = JOB_STARTED j t \<and> job' = job\<lparr>running := R_RUNNING, status := S_IN_PROGRESS, startTimestamp := t\<rparr>)
             \<or> (\<exists>rs. a = TASK_RESULT j rs \<and> job' = job\<lparr>results := rs\<rparr>)
             \<or> (\<exists>t rs. a = FINISH_JOB j t rs \<and> job' = job\<lparr>running := R_DONE, status := S_SUCCESS, results := rs, endTimestamp := Some t\<rparr>)
             \<or> (\<exists>t. a = JOB_ERROR j t \<and> job' = job\<lparr>running := R_DONE, status := S_ERROR, endTimestamp := Some t\<rparr>)))"
  using assms
  by (cases a) (auto simp: reducer_defs split: option.splits if_splits)

lemma consistent_step:
  assumes "\<And>job. byId s j = Some job \<Longrightarrow> consistent job"
    and "byId (jobReducer (Some s) a) j = Some job'"
  shows "consistent job'"
  using jobReducer_job_cases [OF assms(2)] assms(1)
  by (auto simp: consistent_def)

lemma done_has_end_step:
  assumes "\<And>job. byId s j = Some job \<Longrightarrow> done_has_end job"
    and "byId (jobReducer (Some s) a) j = Some job'"
  shows "done_has_end job'"
  using jobReducer_job_cases [OF assms(2)] assms(1)
  by (auto simp: done_has_end_def)

section \<open>Invariants of the reachable states\<close>

lemma reachable_consistent:
  "byId (dispatchAll initialJobState evs) j = Some job \<Longrightarrow> consistent job"
proof (induction evs arbitrary: job rule: rev_induct)
  case Nil
  then show ?case by (simp add: dispatchAll_Nil initialJobState_def)
next
  case (snoc a evs)
  from snoc.prems have "byId (jobReducer (Some (dispatchAll initialJobState evs)) a) j = Some job"
    by (simp add: dispatchAll_snoc)
  with snoc.IH show ?case by (rule consistent_step)
qed

lemma reachable_done_has_end:
  "byId (dispatchAll initialJobState evs) j = Some job \<Longrightarrow> done_has_end job"
proof (induction evs arbitrary: job rule: rev_induct)
  case Nil
  then show ?case by (simp add: dispatchAll_Nil initialJobState_def)
next
  case (snoc a evs)
  from snoc.prems have "byId (jobReducer (Some (dispatchAll initialJobState evs)) a) j = Some job"
    by (simp add: dispatchAll_snoc)
  with snoc.IH show ?case by (rule done_has_end_step)
qed

text \<open>An event that is not a terminal event naming j leaves the endTimestamp of j alone.\<close>

lemma jobReducer_endTimestamp:
  assumes "byId s j = Some job" and "\<not> (terminal a \<and> target a = Some j)"
  shows "map_option endTimestamp (byId (jobReducer (Some s) a) j) = Some (endTimestamp job)"
  using assms
  by (cases a) (auto simp: reducer_defs split: option.splits)

lemma jobReducer_present:
  "byId s j = Some job \<Longrightarrow> \<exists>job'. byId (jobReducer (Some s) a) j = Some job'"
  by (cases a) (auto simp: reducer_defs split: option.splits)

lemma dispatchAll_endTimestamp:
  assumes "byId s j = Some job" and "\<forall>a\<in>set evs. \<not> (terminal a \<and> target a = Some j)"
  shows "map_option endTimestamp (byId (dispatchAll s evs) j) = Some (endTimestamp job)"
  using assms
proof (induction evs arbitrary: s job)
  case Nil
  then show ?case by (simp add: dispatchAll_Nil)
next
  case (Cons a evs)
  from Cons.prems have a: "\<not> (terminal a \<and> target a = Some j)"
    and rest: "\<forall>b\<in>set evs. \<not> (terminal b \<and> target b = Some j)"
    by simp_all
  from jobReducer_endTimestamp [OF Cons.prems(1) a]
  obtain job' where job': "byId (jobReducer (Some s) a) j = Some job'"
    and same: "endTimestamp job' = endTimestamp job"
    by auto
  from Cons.IH [OF job' rest] same show ?case
    by (simp add: dispatchAll_Cons)
qed

lemma no_terminal_no_end:
  assumes "\<forall>a\<in>set evs. \<not> (terminal a \<and> target a = Some j)"
    and "byId (dispatchAll initialJobState evs) j = Some job"
  shows "endTimestamp job = None"
  using assms
proof (induction evs arbitrary: job rule: rev_induct)
  case Nil
  then show ?case by (simp add: dispatchAll_Nil initialJobState_def)
next
  case (snoc a evs)
  from snoc.prems(1) have a: "\<not> (terminal a \<and> target a = Some j)"
    and rest: "\<forall>b\<in>set evs. \<not> (terminal b \<and> target b = Some j)"
    by simp_all
  from snoc.prems(2) have after: "byId (jobReducer (Some (dispatchAll initialJobState evs)) a) j = Some job"
    by (simp add: dispatchAll_snoc)
  show ?case
  proof (cases "byId (dispatchAll initialJobState evs) j")
    case None
    with jobReducer_job_cases [OF after] show ?thesis by auto
  next
    case (Some old)
    from snoc.IH [OF rest Some] jobReducer_endTimestamp [OF Some a] after
    show ?thesis by simp
  qed
qed

text \<open>Histories in lifecycle order, and what a defined end timestamp tells about the history.\<close>

lemma no_late_start_if_none:
  "list_all (\<lambda>b. \<not> startsJob j b) evs \<Longrightarrow> no_late_start j evs"
  by (induction evs) simp_all

lemma no_late_start_snoc:
  "no_late_start j (evs @ [a]) =
     (no_late_start j evs \<and> (startsJob j a \<longrightarrow> list_all (\<lambda>b. \<not> endsJob j b) evs))"
  by (induction evs) (auto simp: no_late_start_if_none)

lemma startsJob_cases: "startsJob j a \<Longrightarrow> \<exists>t. a = JOB_STARTED j t"
  by (cases a) simp_all

lemma in_order_iff:
  "no_late_start j evs \<Longrightarrow> byId (dispatchAll initialJobState evs) j = Some job \<Longrightarrow>
   (endTimestamp job \<noteq> None) = (running job = R_DONE)"
proof (induction evs arbitrary: job rule: rev_induct)
  case Nil
  then show ?case by (simp add: dispatchAll_Nil initialJobState_def)
next
  case (snoc a evs)
  let ?s = "dispatchAll initialJobState evs"
  from snoc.prems(1) have ord: "no_late_start j evs"
    and late: "startsJob j a \<Longrightarrow> list_all (\<lambda>b. \<not> endsJob j b) evs"
    by (simp_all add: no_late_start_snoc)
  from snoc.prems(2) have after: "byId (jobReducer (Some ?s) a) j = Some job"
    by (simp add: dispatchAll_snoc)
  show ?case
  proof (cases "startsJob j a")
    case False
    with jobReducer_job_cases [OF after] snoc.IH [OF ord] show ?thesis
      by auto
  next
    case True
    then obtain t where a: "a = JOB_STARTED j t"
      using startsJob_cases by blast
    from late [OF True] have none: "\<forall>b\<in>set evs. \<not> (terminal b \<and> target b = Some j)"
      by (simp add: list_all_iff endsJob_def)
    from jobReducer_job_cases [OF after] a obtain old where old: "byId ?s j = Some old"
      and job: "job = old \<or> job = old\<lparr>running := R_RUNNING, status := S_IN_PROGRESS, startTimestamp := t\<rparr>"
      by auto
    from no_terminal_no_end [OF none old] snoc.IH [OF ord old] job show ?thesis
      by auto
  qed
qed

lemma end_needs_terminal:
  assumes "byId (dispatchAll initialJobState evs) j = Some job" and "endTimestamp job \<noteq> None"
  shows "list_ex (endsJob j) evs"
proof (rule ccontr)
  assume "\<not> list_ex (endsJob j) evs"
  then have "\<forall>a\<in>set evs. \<not> (terminal a \<and> target a = Some j)"
    by (simp add: list_ex_iff endsJob_def)
  from no_terminal_no_end [OF this assms(1)] assms(2) show False
    by simp
qed

text \<open>The definitions to unfold when a reduction is evaluated on concrete events.\<close>

lemmas run_defs = dispatchAll_def initialJobState_def reducer_defs

section \<open>The claims\<close>

text \<open>
  C1 (amended): in every state reachable from the initial empty store by a sequence of
  events, for every job \<open>j\<close> in that state: if no JOB_STARTED naming \<open>j\<close> comes
  after a FINISH_JOB or JOB_ERROR naming \<open>j\<close> in the sequence, then \<open>endTimestamp\<close>
  is defined if and only if \<open>running\<close> is \<open>DONE\<close>. On every sequence, a job in
  phase \<open>DONE\<close> has a defined \<open>endTimestamp\<close>, and a defined \<open>endTimestamp\<close>
  means that a FINISH_JOB or JOB_ERROR naming \<open>j\<close> is in the sequence.
\<close>

theorem endTimestamp_iff_done_in_order:
  "byId (dispatchAll initialJobState evs) j = Some job \<Longrightarrow>
     (no_late_start j evs \<longrightarrow> (endTimestamp job \<noteq> None) = (running job = R_DONE))
   \<and> (running job = R_DONE \<longrightarrow> endTimestamp job \<noteq> None)
   \<and> (endTimestamp job \<noteq> None \<longrightarrow> list_ex (endsJob j) evs)"
  using in_order_iff [of j evs job] reachable_done_has_end [of evs j job]
    end_needs_terminal [of evs j job]
  by (simp add: done_has_end_def)

theorem endTimestamp_iff_done_in_order_witness:
  "byId (dispatchAll initialJobState
       [JOB_STARTED ''j1'' 90, CREATE ''j1'' ''d1'' 100, JOB_STARTED ''j1'' 105, FINISH_JOB ''j1'' 200 [1::nat]]) ''j1''
     = Some \<lparr> job_id = ''j1'', dataset = ''d1'', running = R_DONE, status = S_SUCCESS,
              results = [1], startTimestamp = 105, endTimestamp = Some 200 \<rparr>
   \<and> no_late_start ''j1''
       [JOB_STARTED ''j1'' 90, CREATE ''j1'' ''d1'' 100, JOB_STARTED ''j1'' 105, FINISH_JOB ''j1'' 200 [1::nat]]
   \<and> list_ex (endsJob ''j1'')
       [JOB_STARTED ''j1'' 90, CREATE ''j1'' ''d1'' 100, JOB_STARTED ''j1'' 105, FINISH_JOB ''j1'' 200 [1::nat]]
   \<and> byId (dispatchAll initialJobState
       [CREATE ''j1'' ''d1'' 100, JOB_STARTED ''j1'' 105 :: nat action]) ''j1''
     = Some \<lparr> job_id = ''j1'', dataset = ''d1'', running = R_RUNNING, status = S_IN_PROGRESS,
              results = [], startTimestamp = 105, endTimestamp = None \<rparr>
   \<and> no_late_start ''j1'' [CREATE ''j1'' ''d1'' 100, JOB_STARTED ''j1'' 105 :: nat action]"
proof -
  let ?evs = "[JOB_STARTED ''j1'' 90, CREATE ''j1'' ''d1'' 100, JOB_STARTED ''j1'' 105, FINISH_JOB ''j1'' 200 [1::nat]]"
  let ?job = "\<lparr> job_id = ''j1'', dataset = ''d1'', running = R_DONE, status = S_SUCCESS,
              results = [1::nat], startTimestamp = 105, endTimestamp = Some 200 \<rparr>"
  let ?evs' = "[CREATE ''j1'' ''d1'' 100, JOB_STARTED ''j1'' 105 :: nat action]"
  let ?job' = "\<lparr> job_id = ''j1'', dataset = ''d1'', running = R_RUNNING, status = S_IN_PROGRESS,
              results = ([] :: nat list), startTimestamp = 105, endTimestamp = None \<rparr>"
  have h1: "byId (dispatchAll initialJobState ?evs) ''j1'' = Some ?job"
    by (simp add: run_defs)
  have h2: "no_late_start ''j1'' ?evs"
    by (simp add: endsJob_def)
  have h3: "running ?job = R_DONE" and h4: "endTimestamp ?job \<noteq> None"
    by simp_all
  have h5: "byId (dispatchAll initialJobState ?evs') ''j1'' = Some ?job'"
    by (simp add: run_defs)
  have h6: "no_late_start ''j1'' ?evs'"
    by (simp add: endsJob_def)
  from endTimestamp_iff_done_in_order [OF h1] endTimestamp_iff_done_in_order [OF h5] h1 h2 h3 h4 h5 h6
  show ?thesis by simp
qed

text \<open>
  C1, as stated, fails. After CREATE, FINISH_JOB and a late JOB_STARTED for the same
  job, the job is in phase \<open>RUNNING\<close> and still carries the end timestamp of the
  FINISH_JOB: the JOB_STARTED case overwrites \<open>running\<close>, \<open>status\<close> and
  \<open>startTimestamp\<close> only.
\<close>

theorem endTimestamp_iff_done_counterexample:
  "byId (dispatchAll initialJobState
      [CREATE ''j1'' ''d1'' 100, FINISH_JOB ''j1'' 200 [1::nat], JOB_STARTED ''j1'' 300]) ''j1''
     = Some \<lparr> job_id = ''j1'', dataset = ''d1'', running = R_RUNNING, status = S_IN_PROGRESS,
              results = [1], startTimestamp = 300, endTimestamp = Some 200 \<rparr>"
  by (simp add: run_defs)

text \<open>
  C2: in every state reachable from the initial empty store by any sequence of events,
  the pair \<open>(running, status)\<close> of every job is one of (CREATING, CREATING),
  (RUNNING, IN_PROGRESS), (DONE, SUCCESS), (DONE, ERROR).
\<close>

theorem reachable_running_status:
  "byId (dispatchAll initialJobState evs) j = Some job \<Longrightarrow>
   (running job, status job) \<in>
     {(R_CREATING, S_CREATING), (R_RUNNING, S_IN_PROGRESS), (R_DONE, S_SUCCESS), (R_DONE, S_ERROR)}"
  using reachable_consistent [of evs j job] by (simp add: consistent_def)

theorem reachable_running_status_witness:
  "byId (dispatchAll initialJobState [CREATE ''j1'' ''d1'' 100, JOB_STARTED ''j1'' 105, TASK_RESULT ''j1'' [7::nat]]) ''j1''
     = Some \<lparr> job_id = ''j1'', dataset = ''d1'', running = R_RUNNING, status = S_IN_PROGRESS,
              results = [7], startTimestamp = 105, endTimestamp = None \<rparr>
   \<and> (R_RUNNING, S_IN_PROGRESS) \<in>
     {(R_CREATING, S_CREATING), (R_RUNNING, S_IN_PROGRESS), (R_DONE, S_SUCCESS), (R_DONE, S_ERROR)}"
proof -
  let ?job = "\<lparr> job_id = ''j1'', dataset = ''d1'', running = R_RUNNING, status = S_IN_PROGRESS,
              results = [7::nat], startTimestamp = 105, endTimestamp = None \<rparr>"
  have h: "byId (dispatchAll initialJobState [CREATE ''j1'' ''d1'' 100, JOB_STARTED ''j1'' 105, TASK_RESULT ''j1'' [7::nat]]) ''j1'' = Some ?job"
    by (simp add: run_defs)
  from reachable_running_status [OF h] h show ?thesis by simp
qed

text \<open>
  C3: if the state holds a job at id \<open>j\<close>, then after TASK_RESULT for \<open>j\<close> with
  results \<open>rs\<close> the job at \<open>j\<close> is the old job with \<open>results\<close> replaced by
  \<open>rs\<close>: its results are exactly \<open>rs\<close>, its \<open>running\<close> and \<open>status\<close> are
  unchanged, and after a second TASK_RESULT for \<open>j\<close> the results are those of the
  second payload.
\<close>

theorem task_result_replaces:
  "byId s j = Some job \<Longrightarrow>
     byId (jobReducer (Some s) (TASK_RESULT j rs)) j = Some (job \<lparr> results := rs \<rparr>)
   \<and> map_option results (byId (jobReducer (Some s) (TASK_RESULT j rs)) j) = Some rs
   \<and> map_option running (byId (jobReducer (Some s) (TASK_RESULT j rs)) j) = Some (running job)
   \<and> map_option status (byId (jobReducer (Some s) (TASK_RESULT j rs)) j) = Some (status job)
   \<and> byId (jobReducer (Some (jobReducer (Some s) (TASK_RESULT j rs))) (TASK_RESULT j rs')) j
       = Some (job \<lparr> results := rs' \<rparr>)"
  by (simp add: reducer_defs)

theorem task_result_replaces_witness:
  "byId (dispatchAll initialJobState [CREATE ''j1'' ''d1'' 100, JOB_STARTED ''j1'' 105]) ''j1''
     = Some \<lparr> job_id = ''j1'', dataset = ''d1'', running = R_RUNNING, status = S_IN_PROGRESS,
              results = ([] :: nat list), startTimestamp = 105, endTimestamp = None \<rparr>
   \<and> map_option results (byId (jobReducer
        (Some (jobReducer (Some (dispatchAll initialJobState [CREATE ''j1'' ''d1'' 100, JOB_STARTED ''j1'' 105]))
                 (TASK_RESULT ''j1'' [1::nat])))
        (TASK_RESULT ''j1'' [1, 2])) ''j1'') = Some [1, 2]"
proof -
  let ?s = "dispatchAll initialJobState [CREATE ''j1'' ''d1'' 100, JOB_STARTED ''j1'' 105] :: nat JobReducerState"
  let ?job = "\<lparr> job_id = ''j1'', dataset = ''d1'', running = R_RUNNING, status = S_IN_PROGRESS,
              results = ([] :: nat list), startTimestamp = 105, endTimestamp = None \<rparr>"
  have h: "byId ?s ''j1'' = Some ?job"
    by (simp add: run_defs)
  from task_result_replaces [OF h, of "[1]" "[1, 2]"] h show ?thesis by simp
qed

text \<open>
  C4: two CREATE events with the same id, whatever their payloads, yield the state that
  the first CREATE alone yields; and a CREATE whose id is already present returns the
  state unchanged (the entity is retained, nothing is appended to \<open>ids\<close>).
\<close>

theorem create_twice:
  "jobReducer (Some (jobReducer (Some s) (CREATE i d t))) (CREATE i d' t') = jobReducer (Some s) (CREATE i d t)
   \<and> (byId s i \<noteq> None \<longrightarrow> jobReducer (Some s) (CREATE i d' t') = s)"
  by (auto simp: jobReducer_def insertById_def split: option.splits)

theorem create_twice_witness:
  "byId (jobReducer (Some initialJobState) (CREATE ''j1'' ''d1'' 100 :: nat action)) ''j1'' \<noteq> None
   \<and> jobReducer (Some (jobReducer (Some initialJobState) (CREATE ''j1'' ''d1'' 100 :: nat action)))
        (CREATE ''j1'' ''d2'' 300)
      = jobReducer (Some initialJobState) (CREATE ''j1'' ''d1'' 100)"
proof -
  let ?s = "jobReducer (Some initialJobState) (CREATE ''j1'' ''d1'' 100 :: nat action)"
  have h: "byId ?s ''j1'' \<noteq> None"
    by (simp add: run_defs)
  from create_twice [of ?s "''j1''" "''d1''" 100 "''d2''" 300] h show ?thesis by simp
qed

text \<open>
  C5: if the id \<open>j\<close> is absent from \<open>byId\<close>, each of JOB_STARTED, TASK_RESULT,
  FINISH_JOB and JOB_ERROR for \<open>j\<close> returns a state equal to its input. The reducer
  is a total function, so no error is raised.
\<close>

theorem unknown_id_noop:
  "byId s j = None \<Longrightarrow>
     jobReducer (Some s) (JOB_STARTED j t) = s
   \<and> jobReducer (Some s) (TASK_RESULT j rs) = s
   \<and> jobReducer (Some s) (FINISH_JOB j t rs) = s
   \<and> jobReducer (Some s) (JOB_ERROR j t) = s"
  by (simp add: jobReducer_def updateById_def)

theorem unknown_id_noop_witness:
  "byId (initialJobState :: nat JobReducerState) ''j1'' = None
   \<and> jobReducer (Some initialJobState) (JOB_ERROR ''j1'' 150) = (initialJobState :: nat JobReducerState)"
proof -
  have h: "byId (initialJobState :: nat JobReducerState) ''j1'' = None"
    by (simp add: initialJobState_def)
  from unknown_id_noop [OF h, of 150 "[]"] h show ?thesis by simp
qed

text \<open>
  C6: if the state holds a job at id \<open>j\<close>, then after JOB_ERROR for \<open>j\<close> with
  timestamp \<open>t\<close> the job at \<open>j\<close> is the old job with \<open>running\<close> = DONE,
  \<open>status\<close> = ERROR and \<open>endTimestamp\<close> = \<open>t\<close>; its results are those it had
  before the event.
\<close>

theorem job_error_effect:
  "byId s j = Some job \<Longrightarrow>
     byId (jobReducer (Some s) (JOB_ERROR j t)) j
       = Some (job \<lparr> running := R_DONE, status := S_ERROR, endTimestamp := Some t \<rparr>)
   \<and> map_option results (byId (jobReducer (Some s) (JOB_ERROR j t)) j) = Some (results job)"
  by (simp add: reducer_defs)

theorem job_error_effect_witness:
  "byId (dispatchAll initialJobState [CREATE ''j1'' ''d1'' 100, TASK_RESULT ''j1'' [4::nat]]) ''j1''
     = Some \<lparr> job_id = ''j1'', dataset = ''d1'', running = R_CREATING, status = S_CREATING,
              results = [4], startTimestamp = 100, endTimestamp = None \<rparr>
   \<and> byId (jobReducer (Some (dispatchAll initialJobState [CREATE ''j1'' ''d1'' 100, TASK_RESULT ''j1'' [4::nat]]))
        (JOB_ERROR ''j1'' 150)) ''j1''
     = Some \<lparr> job_id = ''j1'', dataset = ''d1'', running = R_DONE, status = S_ERROR,
              results = [4], startTimestamp = 100, endTimestamp = Some 150 \<rparr>"
proof -
  let ?s = "dispatchAll initialJobState [CREATE ''j1'' ''d1'' 100, TASK_RESULT ''j1'' [4::nat]]"
  let ?job = "\<lparr> job_id = ''j1'', dataset = ''d1'', running = R_CREATING, status = S_CREATING,
              results = [4::nat], startTimestamp = 100, endTimestamp = None \<rparr>"
  have h: "byId ?s ''j1'' = Some ?job"
    by (simp add: run_defs)
  from job_error_effect [OF h, of 150] h show ?thesis by simp
qed

text \<open>
  C7, as stated, fails. After CREATE and FINISH_JOB at 200 the job is terminal with
  \<open>endTimestamp\<close> = 200; a later JOB_ERROR at 300 for the same job changes
  \<open>endTimestamp\<close> to 300.
\<close>

theorem endTimestamp_once_counterexample:
  "byId (dispatchAll initialJobState [CREATE ''j1'' ''d1'' 100, FINISH_JOB ''j1'' 200 [1::nat]]) ''j1''
     = Some \<lparr> job_id = ''j1'', dataset = ''d1'', running = R_DONE, status = S_SUCCESS,
              results = [1], startTimestamp = 100, endTimestamp = Some 200 \<rparr>
   \<and> byId (dispatchAll initialJobState
        [CREATE ''j1'' ''d1'' 100, FINISH_JOB ''j1'' 200 [1::nat], JOB_ERROR ''j1'' 300]) ''j1''
     = Some \<lparr> job_id = ''j1'', dataset = ''d1'', running = R_DONE, status = S_ERROR,
              results = [1], startTimestamp = 100, endTimestamp = Some 300 \<rparr>"
  by (simp add: run_defs)

text \<open>
  C7 (amended): the \<open>endTimestamp\<close> of a job is absent as long as no FINISH_JOB or
  JOB_ERROR naming the job has been applied since the initial empty store; from any
  state holding the job, a sequence of events without a FINISH_JOB or JOB_ERROR naming
  the job leaves its \<open>endTimestamp\<close> as it was; and a FINISH_JOB or JOB_ERROR naming
  the job sets \<open>endTimestamp\<close> to the timestamp of that event.
\<close>

theorem endTimestamp_history:
  "(byId (dispatchAll initialJobState evs) j = Some job
      \<and> (\<forall>a\<in>set evs. \<not> (terminal a \<and> target a = Some j))
    \<longrightarrow> endTimestamp job = None)
   \<and> (byId s j = Some job \<and> (\<forall>a\<in>set evs. \<not> (terminal a \<and> target a = Some j))
    \<longrightarrow> map_option endTimestamp (byId (dispatchAll s evs) j) = Some (endTimestamp job))
   \<and> (byId s j = Some job
    \<longrightarrow> map_option endTimestamp (byId (jobReducer (Some s) (FINISH_JOB j t rs)) j) = Some (Some t)
      \<and> map_option endTimestamp (byId (jobReducer (Some s) (JOB_ERROR j t)) j) = Some (Some t))"
proof (intro conjI impI)
  assume "byId (dispatchAll initialJobState evs) j = Some job
      \<and> (\<forall>a\<in>set evs. \<not> (terminal a \<and> target a = Some j))"
  then show "endTimestamp job = None"
    using no_terminal_no_end [of evs j job] by blast
next
  assume "byId s j = Some job \<and> (\<forall>a\<in>set evs. \<not> (terminal a \<and> target a = Some j))"
  then show "map_option endTimestamp (byId (dispatchAll s evs) j) = Some (endTimestamp job)"
    using dispatchAll_endTimestamp [of s j job evs] by blast
next
  assume "byId s j = Some job"
  then show "map_option endTimestamp (byId (jobReducer (Some s) (FINISH_JOB j t rs)) j) = Some (Some t)"
    by (simp add: reducer_defs)
next
  assume "byId s j = Some job"
  then show "map_option endTimestamp (byId (jobReducer (Some s) (JOB_ERROR j t)) j) = Some (Some t)"
    by (simp add: reducer_defs)
qed

theorem endTimestamp_history_witness:
  "byId (dispatchAll initialJobState [CREATE ''j1'' ''d1'' 100, JOB_STARTED ''j1'' 105, TASK_RESULT ''j1'' [1::nat]]) ''j1''
     = Some \<lparr> job_id = ''j1'', dataset = ''d1'', running = R_RUNNING, status = S_IN_PROGRESS,
              results = [1], startTimestamp = 105, endTimestamp = None \<rparr>
   \<and> list_all (\<lambda>a. \<not> (terminal a \<and> target a = Some ''j1''))
         [CREATE ''j1'' ''d1'' 100, JOB_STARTED ''j1'' 105, TASK_RESULT ''j1'' [1::nat]]
   \<and> map_option endTimestamp
        (byId (dispatchAll
           (dispatchAll initialJobState [CREATE ''j1'' ''d1'' 100, JOB_STARTED ''j1'' 105, TASK_RESULT ''j1'' [1::nat]])
           [CREATE ''j1'' ''d1'' 100, JOB_STARTED ''j1'' 105, TASK_RESULT ''j1'' [1]]) ''j1'') = Some None
   \<and> map_option endTimestamp
        (byId (jobReducer
           (Some (dispatchAll initialJobState [CREATE ''j1'' ''d1'' 100, JOB_STARTED ''j1'' 105, TASK_RESULT ''j1'' [1::nat]]))
           (FINISH_JOB ''j1'' 200 [1, 2])) ''j1'') = Some (Some 200)"
proof -
  let ?evs = "[CREATE ''j1'' ''d1'' 100, JOB_STARTED ''j1'' 105, TASK_RESULT ''j1'' [1::nat]]"
  let ?job = "\<lparr> job_id = ''j1'', dataset = ''d1'', running = R_RUNNING, status = S_IN_PROGRESS,
              results = [1::nat], startTimestamp = 105, endTimestamp = None \<rparr>"
  have h1: "byId (dispatchAll initialJobState ?evs) ''j1'' = Some ?job"
    by (simp add: run_defs)
  have h2: "\<forall>a\<in>set ?evs. \<not> (terminal a \<and> target a = Some ''j1'')"
    by simp
  from endTimestamp_history [of ?evs "''j1''" ?job "dispatchAll initialJobState ?evs" 200 "[1, 2]"] h1 h2
  show ?thesis by simp
qed

text \<open>
  C8: if the id is absent, CREATE with that id, a dataset and a timestamp yields the
  input state with the id appended to \<open>ids\<close> and a new job at that id with
  \<open>running\<close> = CREATING, \<open>status\<close> = CREATING, empty results and
  \<open>startTimestamp\<close> equal to the timestamp of the event.
\<close>

theorem create_inserts:
  "byId s i = None \<Longrightarrow>
   jobReducer (Some s) (CREATE i d t)
     = s \<lparr> byId := (byId s)(i \<mapsto> \<lparr> job_id = i, dataset = d, running = R_CREATING, status = S_CREATING,
                                   results = [], startTimestamp = t, endTimestamp = None \<rparr>),
           ids := ids s @ [i] \<rparr>"
  by (simp add: jobReducer_def insertById_def)

theorem create_inserts_witness:
  "byId (initialJobState :: nat JobReducerState) ''j1'' = None
   \<and> jobReducer (Some initialJobState) (CREATE ''j1'' ''d1'' 100)
     = \<lparr> byId = [''j1'' \<mapsto> \<lparr> job_id = ''j1'', dataset = ''d1'', running = R_CREATING, status = S_CREATING,
                              results = ([] :: nat list), startTimestamp = 100, endTimestamp = None \<rparr>],
         ids = [''j1''] \<rparr>"
proof -
  have h: "byId (initialJobState :: nat JobReducerState) ''j1'' = None"
    by (simp add: initialJobState_def)
  from create_inserts [OF h, of "''d1''" 100] h show ?thesis
    by (simp add: initialJobState_def)
qed

text \<open>
  C9: after CREATE for id \<open>x\<close>, any sequence of events none of which names \<open>x\<close>
  (as the id of a CREATE or as the job of a lifecycle event) leaves the job stored at
  \<open>x\<close> as it was.
\<close>

theorem other_ids_frame:
  "\<forall>a\<in>set evs. target a \<noteq> Some x \<Longrightarrow>
   byId (dispatchAll (jobReducer (Some s) (CREATE x d t)) evs) x
     = byId (jobReducer (Some s) (CREATE x d t)) x"
  by (rule dispatchAll_frame)

theorem other_ids_frame_witness:
  "list_all (\<lambda>a. target a \<noteq> Some ''j1'')
       [CREATE ''j2'' ''d1'' 110, JOB_STARTED ''j2'' 120, FINISH_JOB ''j2'' 130 [5::nat], JOB_ERROR ''j3'' 140, OTHER_ACTION]
   \<and> byId (dispatchAll (jobReducer (Some initialJobState) (CREATE ''j1'' ''d1'' 100))
        [CREATE ''j2'' ''d1'' 110, JOB_STARTED ''j2'' 120, FINISH_JOB ''j2'' 130 [5::nat], JOB_ERROR ''j3'' 140, OTHER_ACTION]) ''j1''
     = Some \<lparr> job_id = ''j1'', dataset = ''d1'', running = R_CREATING, status = S_CREATING,
              results = [], startTimestamp = 100, endTimestamp = None \<rparr>"
proof -
  let ?evs = "[CREATE ''j2'' ''d1'' 110, JOB_STARTED ''j2'' 120, FINISH_JOB ''j2'' 130 [5::nat], JOB_ERROR ''j3'' 140, OTHER_ACTION]"
  have h: "\<forall>a\<in>set ?evs. target a \<noteq> Some ''j1''"
    by simp
  from other_ids_frame [OF h, of initialJobState "''d1''" 100] h show ?thesis
    by (simp add: initialJobState_def jobReducer_def insertById_def)
qed

text \<open>
  C10: called with an undefined state, the reducer behaves as on the initial empty
  store; an action without a case in the switch then returns exactly the empty store.
\<close>

theorem undefined_state_default:
  "jobReducer None a = jobReducer (Some initialJobState) a
   \<and> jobReducer None OTHER_ACTION = \<lparr> byId = Map.empty, ids = [] \<rparr>"
  by (simp add: jobReducer_def initialJobState_def)

end
